theory Spec2Isabelle
  imports Main
begin

section \<open>Values a response body parses to\<close>

text \<open>
  The task client (\<^verbatim>\<open>index.js\<close> of the PostgREST variant) reads response bodies with
  \<^verbatim>\<open>response.json()\<close>. A parsed body is a JSON value. Strings are sequences of
  characters with code below 256. A number is kept as the two things the
  program can observe of it: whether it is truthy (neither \<^verbatim>\<open>0\<close> nor \<^verbatim>\<open>-0\<close>)
  and the text \<^verbatim>\<open>ToString\<close> gives it; no arithmetic is done on numbers anywhere in
  the program. An object is its list of members in source order; \<^verbatim>\<open>JSON.parse\<close>
  keeps the last of several members with one key.
  The JavaScript value \<^verbatim>\<open>undefined\<close> is \<open>None\<close> of type \<open>json option\<close>.
\<close>

datatype json =
    JNull
  | JBool bool
  | JNum bool string
  | JStr string
  | JArr "json list"
  | JObj "(string \<times> json) list"

datatype js_error =
    TypeError
  | SyntaxError
  | HttpError nat
  | NetworkError

text \<open>
  Reading one of the properties \<^verbatim>\<open>is_completed\<close>, \<^verbatim>\<open>id\<close>, \<^verbatim>\<open>name\<close> of a value:
  a \<^verbatim>\<open>TypeError\<close> on \<^verbatim>\<open>undefined\<close> and \<^verbatim>\<open>null\<close>, the member of an object (the last
  one with that key), and \<^verbatim>\<open>undefined\<close> on every other value, since no prototype of
  a parsed value defines one of these three names.
\<close>

fun get_prop :: "json option \<Rightarrow> string \<Rightarrow> js_error + json option" where
  "get_prop None k = Inl TypeError"
| "get_prop (Some JNull) k = Inl TypeError"
| "get_prop (Some (JObj kvs)) k = Inr (map_of (rev kvs) k)"
| "get_prop (Some v) k = Inr None"

text \<open>The truthiness test of \<^verbatim>\<open>if (task.is_completed)\<close>.\<close>

fun truthy :: "json option \<Rightarrow> bool" where
  "truthy None = False"
| "truthy (Some JNull) = False"
| "truthy (Some (JBool b)) = b"
| "truthy (Some (JNum nz s)) = nz"
| "truthy (Some (JStr s)) = (s \<noteq> [])"
| "truthy (Some (JArr xs)) = True"
| "truthy (Some (JObj kvs)) = True"

text \<open>
  \<^verbatim>\<open>ToString\<close>, as a template literal and the \<^verbatim>\<open>dataset\<close> setter apply it.
  An array joins the strings of its elements with commas, \<^verbatim>\<open>null\<close> giving the
  empty string. A parsed object inherits \<^verbatim>\<open>Object.prototype.toString\<close>, unless it
  has a member named \<^verbatim>\<open>toString\<close> of its own: that member is not callable, and the
  conversion throws a \<^verbatim>\<open>TypeError\<close>.
\<close>

fun join_comma :: "string list \<Rightarrow> string" where
  "join_comma [] = []"
| "join_comma [s] = s"
| "join_comma (s # t # ss) = s @ '','' @ join_comma (t # ss)"

fun sequence_sum :: "('e + 'a) list \<Rightarrow> 'e + 'a list" where
  "sequence_sum [] = Inr []"
| "sequence_sum (Inl e # rs) = Inl e"
| "sequence_sum (Inr x # rs) =
     (case sequence_sum rs of Inl e \<Rightarrow> Inl e | Inr xs \<Rightarrow> Inr (x # xs))"

fun to_string :: "json \<Rightarrow> js_error + string" where
  "to_string JNull = Inr ''null''"
| "to_string (JBool b) = Inr (if b then ''true'' else ''false'')"
| "to_string (JNum nz s) = Inr s"
| "to_string (JStr s) = Inr s"
| "to_string (JArr xs) =
     (case sequence_sum (map (\<lambda>x. if x = JNull then Inr [] else to_string x) xs) of
        Inl e \<Rightarrow> Inl e
      | Inr ss \<Rightarrow> Inr (join_comma ss))"
| "to_string (JObj kvs) =
     (if ''toString'' \<in> fst ` set kvs then Inl TypeError else Inr ''[object Object]'')"

fun to_string_u :: "json option \<Rightarrow> js_error + string" where
  "to_string_u None = Inr ''undefined''"
| "to_string_u (Some v) = to_string v"

text \<open>
  The array pattern \<^verbatim>\<open>const [newTask] = value\<close>: the first element of an array or the
  first character of a string, \<^verbatim>\<open>undefined\<close> when there is none, and a
  \<^verbatim>\<open>TypeError\<close> on a value that is not iterable.
\<close>

fun destructure_first :: "json \<Rightarrow> js_error + json option" where
  "destructure_first (JArr []) = Inr None"
| "destructure_first (JArr (x # xs)) = Inr (Some x)"
| "destructure_first (JStr []) = Inr None"
| "destructure_first (JStr (c # cs)) = Inr (Some (JStr [c]))"
| "destructure_first v = Inl TypeError"

text \<open>\<^verbatim>\<open>String.prototype.trim\<close> on characters below 256.\<close>

definition is_whitespace :: "char \<Rightarrow> bool" where
  "is_whitespace c =
     (of_char c \<in> {9::nat, 10, 11, 12, 13, 32, 160})"

definition trim :: "string \<Rightarrow> string" where
  "trim s = rev (dropWhile is_whitespace (rev (dropWhile is_whitespace s)))"

section \<open>The page and the requests in flight\<close>

text \<open>
  The program keeps no task collection of its own: the tasks it holds are the
  \<^verbatim>\<open>li\<close> children of the \<^verbatim>\<open>taskList\<close> element, in display order. An item is
  the element's identity (a number given by \<^verbatim>\<open>document.createElement\<close>), its
  class tokens, its \<^verbatim>\<open>dataset.taskId\<close> and the text placed in its markup. A task
  is completed when its item carries the class \<^verbatim>\<open>completed\<close>.
\<close>

record list_item =
  elem :: nat
  classList :: "string list"
  taskId :: string
  label :: string

record request =
  req_method :: string
  req_url :: string
  req_headers :: "(string \<times> string) list"
  req_body :: "json option"

text \<open>
  What runs when a pending \<^verbatim>\<open>fetch\<close> settles: the rest of \<^verbatim>\<open>loadTasks\<close>, the
  rest of \<^verbatim>\<open>addTask\<close>, or the rest of \<^verbatim>\<open>completeTask\<close> followed by the rest of the
  click handler, which holds the clicked element, the task's id and the status
  computed at the click.
\<close>

datatype continuation =
    LoadCont
  | AddCont
  | ToggleCont nat string bool

datatype console_entry =
    ConsoleError string js_error
  | ConsoleLog string

record app =
  taskList :: "list_item list"
  taskInput :: string
  alerts :: "string list"
  console :: "console_entry list"
  next_elem :: nat
  inflight :: "(request \<times> continuation) list"

text \<open>
  A \<^verbatim>\<open>fetch\<close> either rejects or resolves to a response with a status and a body,
  \<open>None\<close> being a body that \<^verbatim>\<open>response.json()\<close> cannot parse.
\<close>

datatype fetch_result =
    Rejected
  | Response nat "json option"

definition response_ok :: "nat \<Rightarrow> bool" where
  "response_ok st = (200 \<le> st \<and> st \<le> 299)"

definition API_URL :: string where
  "API_URL = ''http://localhost:3000/tasks''"

definition is_completed :: "list_item \<Rightarrow> bool" where
  "is_completed it = (''completed'' \<in> set (classList it))"

definition classList_toggle :: "string \<Rightarrow> string list \<Rightarrow> string list" where
  "classList_toggle t cs = (if t \<in> set cs then removeAll t cs else cs @ [t])"

section \<open>renderTask\<close>

text \<open>
  The part of \<^verbatim>\<open>renderTask\<close> between \<^verbatim>\<open>createElement\<close> and \<^verbatim>\<open>appendChild\<close> works on
  the new element only: \<open>new_item\<close> gives the element it builds, or the error
  thrown on the way.
\<close>

definition initial_classes :: "json option \<Rightarrow> string list" where
  "initial_classes c =
     [''w3-display-container'', ''task-item'', ''w3-white''] @
     (if truthy c then [''completed'', ''w3-border-green'']
      else [''w3-border-theme-l1''])"

definition new_item :: "nat \<Rightarrow> json option \<Rightarrow> js_error + list_item" where
  "new_item listItem task =
     (case get_prop task ''is_completed'' of
        Inl e \<Rightarrow> Inl e
      | Inr c \<Rightarrow>
         (case get_prop task ''id'' of
            Inl e \<Rightarrow> Inl e
          | Inr i \<Rightarrow>
             (case to_string_u i of
                Inl e \<Rightarrow> Inl e
              | Inr tid \<Rightarrow>
                 (case get_prop task ''name'' of
                    Inl e \<Rightarrow> Inl e
                  | Inr n \<Rightarrow>
                     (case to_string_u n of
                        Inl e \<Rightarrow> Inl e
                      | Inr nm \<Rightarrow>
                          Inr \<lparr>elem = listItem, classList = initial_classes c,
                               taskId = tid, label = nm\<rparr>)))))"

definition renderTask :: "json option \<Rightarrow> app \<Rightarrow> app \<times> js_error option" where
  "renderTask task s =
     (let listItem = next_elem s;
          s1 = s\<lparr>next_elem := Suc (next_elem s)\<rparr>
      in case new_item listItem task of
           Inl e \<Rightarrow> (s1, Some e)
         | Inr it \<Rightarrow> (s1\<lparr>taskList := taskList s1 @ [it]\<rparr>, None))"

text \<open>\<^verbatim>\<open>tasks.forEach(task => renderTask(task))\<close>, which stops at the first throw.\<close>

fun forEach_renderTask :: "json list \<Rightarrow> app \<Rightarrow> app \<times> js_error option" where
  "forEach_renderTask [] s = (s, None)"
| "forEach_renderTask (t # ts) s =
     (case renderTask (Some t) s of
        (s1, Some e) \<Rightarrow> (s1, Some e)
      | (s1, None) \<Rightarrow> forEach_renderTask ts s1)"

section \<open>loadTasks\<close>

definition loadTasks_request :: request where
  "loadTasks_request =
     \<lparr>req_method = ''GET'', req_url = API_URL,
      req_headers = [(''Accept'', ''application/json'')], req_body = None\<rparr>"

definition loadTasks :: "app \<Rightarrow> app" where
  "loadTasks s = s\<lparr>inflight := inflight s @ [(loadTasks_request, LoadCont)]\<rparr>"

definition loadTasks_catch :: "js_error \<Rightarrow> app \<Rightarrow> app" where
  "loadTasks_catch e s =
     s\<lparr>console := console s @ [ConsoleError ''Could not load tasks:'' e],
       alerts := alerts s @
         [''Failed to load tasks from API. Check console for details.'']\<rparr>"

fun loadTasks_resume :: "fetch_result \<Rightarrow> app \<Rightarrow> app" where
  "loadTasks_resume Rejected s = loadTasks_catch NetworkError s"
| "loadTasks_resume (Response st b) s =
     (if \<not> response_ok st then loadTasks_catch (HttpError st) s
      else case b of
        None \<Rightarrow> loadTasks_catch SyntaxError s
      | Some tasks \<Rightarrow>
         (let s1 = s\<lparr>taskList := []\<rparr>
          in case tasks of
               JArr ts \<Rightarrow>
                 (case forEach_renderTask ts s1 of
                    (s2, None) \<Rightarrow> s2
                  | (s2, Some e) \<Rightarrow> loadTasks_catch e s2)
             | _ \<Rightarrow> loadTasks_catch TypeError s1))"

section \<open>addTask\<close>

definition addTask_request :: "string \<Rightarrow> request" where
  "addTask_request taskName =
     \<lparr>req_method = ''POST'', req_url = API_URL,
      req_headers = [(''Content-Type'', ''application/json''),
                     (''Prefer'', ''return=representation'')],
      req_body = Some (JObj [(''name'', JStr taskName),
                             (''is_completed'', JBool False)])\<rparr>"

text \<open>
  The argument is \<open>None\<close> when \<^verbatim>\<open>addTask()\<close> is called without one, as the
  \<^verbatim>\<open>keypress\<close> handler does: then the default, the trimmed input field, is used.
\<close>

definition addTask :: "string option \<Rightarrow> app \<Rightarrow> app" where
  "addTask arg s =
     (let taskName = (case arg of None \<Rightarrow> trim (taskInput s) | Some t \<Rightarrow> t)
      in if taskName = [] then s\<lparr>alerts := alerts s @ [''You must write something!'']\<rparr>
         else s\<lparr>inflight := inflight s @ [(addTask_request taskName, AddCont)]\<rparr>)"

definition addTask_catch :: "js_error \<Rightarrow> app \<Rightarrow> app" where
  "addTask_catch e s =
     s\<lparr>console := console s @ [ConsoleError ''Could not add task:'' e],
       alerts := alerts s @
         [''Failed to add task via API. Check console for details.'']\<rparr>"

fun addTask_resume :: "fetch_result \<Rightarrow> app \<Rightarrow> app" where
  "addTask_resume Rejected s = addTask_catch NetworkError s"
| "addTask_resume (Response st b) s =
     (if \<not> response_ok st then addTask_catch (HttpError st) s
      else case b of
        None \<Rightarrow> addTask_catch SyntaxError s
      | Some v \<Rightarrow>
         (case destructure_first v of
            Inl e \<Rightarrow> addTask_catch e s
          | Inr newTask \<Rightarrow>
             (case renderTask newTask s of
                (s1, Some e) \<Rightarrow> addTask_catch e s1
              | (s1, None) \<Rightarrow> s1\<lparr>taskInput := []\<rparr>)))"

section \<open>completeTask and the click handler\<close>

definition show_bool :: "bool \<Rightarrow> string" where
  "show_bool b = (if b then ''true'' else ''false'')"

definition completeTask_request :: "string \<Rightarrow> bool \<Rightarrow> request" where
  "completeTask_request tid isCompleted =
     \<lparr>req_method = ''PATCH'', req_url = API_URL @ ''?id=eq.'' @ tid,
      req_headers = [(''Content-Type'', ''application/json'')],
      req_body = Some (JObj [(''is_completed'', JBool isCompleted)])\<rparr>"

definition completeTask_catch :: "js_error \<Rightarrow> app \<Rightarrow> app" where
  "completeTask_catch e s =
     s\<lparr>console := console s @ [ConsoleError ''Could not update task status:'' e],
       alerts := alerts s @
         [''Failed to update task status via API. Check console for details.'']\<rparr>"

fun completeTask_resume :: "fetch_result \<Rightarrow> string \<Rightarrow> bool \<Rightarrow> app \<Rightarrow> app" where
  "completeTask_resume Rejected tid isCompleted s = completeTask_catch NetworkError s"
| "completeTask_resume (Response st b) tid isCompleted s =
     (if \<not> response_ok st then completeTask_catch (HttpError st) s
      else s\<lparr>console := console s @
             [ConsoleLog (''Task '' @ tid @ '' status updated to '' @ show_bool isCompleted)]\<rparr>)"

text \<open>
  A click on the item with element \<open>e\<close>; \<open>on_close\<close> says whether the click's
  target carries the class \<^verbatim>\<open>close-btn\<close>. Only an element of the displayed list can
  be clicked. The handler computes the new status from the class list, starts
  \<^verbatim>\<open>completeTask\<close> and waits for it.
\<close>

definition click :: "nat \<Rightarrow> bool \<Rightarrow> app \<Rightarrow> app" where
  "click e on_close s =
     (case find (\<lambda>it. elem it = e) (taskList s) of
        None \<Rightarrow> s
      | Some it \<Rightarrow>
         if on_close then s
         else (let newStatus = \<not> is_completed it
               in s\<lparr>inflight := inflight s @
                      [(completeTask_request (taskId it) newStatus,
                        ToggleCont e (taskId it) newStatus)]\<rparr>))"

text \<open>
  After \<^verbatim>\<open>completeTask\<close> has returned, which it does on failure too since it
  catches its own errors, the handler toggles the three classes of the element
  it was attached to. An element that a reload has removed from the list in the
  meantime is no longer displayed, and toggling it shows nothing.
\<close>

definition toggle_classes :: "list_item \<Rightarrow> list_item" where
  "toggle_classes it =
     it\<lparr>classList :=
          classList_toggle ''w3-border-theme-l1''
            (classList_toggle ''w3-border-green''
              (classList_toggle ''completed'' (classList it)))\<rparr>"

definition click_resume :: "fetch_result \<Rightarrow> nat \<Rightarrow> string \<Rightarrow> bool \<Rightarrow> app \<Rightarrow> app" where
  "click_resume r e tid newStatus s =
     (let s1 = completeTask_resume r tid newStatus s
      in s1\<lparr>taskList :=
             map (\<lambda>it. if elem it = e then toggle_classes it else it) (taskList s1)\<rparr>)"

section \<open>Events\<close>

text \<open>
  The page reacts to: \<^verbatim>\<open>window.onload\<close> (which is \<^verbatim>\<open>loadTasks\<close>), the user editing
  the input field, the Enter key in the input field (\<^verbatim>\<open>addTask()\<close>), a click on
  an item, and the settling of the \<open>k\<close>-th pending \<^verbatim>\<open>fetch\<close>. Every handler runs
  from one \<^verbatim>\<open>await\<close> of a \<^verbatim>\<open>fetch\<close> to the next without another handler in
  between, so one event is one step.
\<close>

datatype event =
    WindowLoad
  | Input string
  | PressEnter
  | Click nat bool
  | Settle nat fetch_result

fun resume :: "continuation \<Rightarrow> fetch_result \<Rightarrow> app \<Rightarrow> app" where
  "resume LoadCont r s = loadTasks_resume r s"
| "resume AddCont r s = addTask_resume r s"
| "resume (ToggleCont e tid newStatus) r s = click_resume r e tid newStatus s"

fun step :: "app \<Rightarrow> event \<Rightarrow> app" where
  "step s WindowLoad = loadTasks s"
| "step s (Input v) = s\<lparr>taskInput := v\<rparr>"
| "step s PressEnter = addTask None s"
| "step s (Click e on_close) = click e on_close s"
| "step s (Settle k r) =
     (if k < length (inflight s)
      then resume (snd (inflight s ! k)) r
             (s\<lparr>inflight := take k (inflight s) @ drop (Suc k) (inflight s)\<rparr>)
      else s)"

definition run :: "app \<Rightarrow> event list \<Rightarrow> app" where
  "run s evs = foldl step s evs"

text \<open>
  The three user operations run to completion, the request they start settling
  with result \<open>r\<close> before anything else happens. The request an operation starts
  is the last one in flight.
\<close>

definition Reload :: "fetch_result \<Rightarrow> app \<Rightarrow> app" where
  "Reload r s = run s [WindowLoad, Settle (length (inflight s)) r]"

definition Add :: "fetch_result \<Rightarrow> app \<Rightarrow> app" where
  "Add r s = run s [PressEnter, Settle (length (inflight s)) r]"

definition Toggle :: "nat \<Rightarrow> fetch_result \<Rightarrow> app \<Rightarrow> app" where
  "Toggle e r s = run s [Click e False, Settle (length (inflight s)) r]"

definition empty_page :: app where
  "empty_page =
     \<lparr>taskList = [], taskInput = [], alerts = [], console = [],
      next_elem = 0, inflight = []\<rparr>"

section \<open>The variant without a backend\<close>

text \<open>
  \<^verbatim>\<open>WebApp/tasks/index.js\<close> keeps the tasks on the page only. Its \<^verbatim>\<open>addTask\<close> takes
  the text (\<open>None\<close> for \<^verbatim>\<open>null\<close> or a missing argument) and the flag \<^verbatim>\<open>isNew\<close>; a
  falsy text, which is \<^verbatim>\<open>null\<close> or the empty string, is replaced by the
  trimmed input field.

  The item's markup, the text followed by the close button's \<^verbatim>\<open>span\<close>, is parsed
  by the browser, and the text is part of that markup: a text such as \<^verbatim>\<open><!--\<close>
  swallows the \<^verbatim>\<open>span\<close>. The parser is not part of the program, so the function
  takes its verdict as the parameter \<open>has_close_btn\<close>: whether, in the markup of
  an item with this text, \<^verbatim>\<open>querySelector('.close-btn')\<close> finds an element. When
  it finds none, \<^verbatim>\<open>closeSpan.addEventListener\<close> throws a \<^verbatim>\<open>TypeError\<close>: the element
  has been created, but it is not appended and the input field is not emptied.
  The function returns the page and the error thrown, if any.
\<close>

record local_item =
  l_elem :: nat
  l_classList :: "string list"
  l_label :: string

record local_app =
  l_taskList :: "local_item list"
  l_taskInput :: string
  l_alerts :: "string list"
  l_next_elem :: nat

definition addTask_local ::
  "(string \<Rightarrow> bool) \<Rightarrow> string option \<Rightarrow> bool \<Rightarrow> local_app \<Rightarrow> local_app \<times> js_error option"
where
  "addTask_local has_close_btn arg isNew s =
     (let taskText =
            (case arg of
               None \<Rightarrow> trim (l_taskInput s)
             | Some t \<Rightarrow> if t = [] then trim (l_taskInput s) else t)
      in if taskText = []
         then (if isNew
               then (s\<lparr>l_alerts := l_alerts s @ [''You must write something!'']\<rparr>, None)
               else (s, None))
         else
           (let listItem =
                  \<lparr>l_elem = l_next_elem s,
                   l_classList = [''w3-display-container'', ''task-item'', ''w3-white'',
                                  ''w3-border-theme-l1''],
                   l_label = taskText\<rparr>;
                s0 = s\<lparr>l_next_elem := Suc (l_next_elem s)\<rparr>
            in if \<not> has_close_btn taskText then (s0, Some TypeError)
               else (let s1 = s0\<lparr>l_taskList := l_taskList s0 @ [listItem]\<rparr>
                     in (if isNew then s1\<lparr>l_taskInput := []\<rparr> else s1, None))))"

section \<open>Notions the properties are stated with\<close>

text \<open>
  A request fails in transport when the \<^verbatim>\<open>fetch\<close> rejects or the status is not a
  success status; a response is unparseable when its status is a success status
  and its body is not JSON.
\<close>

fun transport_failure :: "fetch_result \<Rightarrow> bool" where
  "transport_failure Rejected = True"
| "transport_failure (Response st b) = (\<not> response_ok st)"

fun unparseable :: "fetch_result \<Rightarrow> bool" where
  "unparseable Rejected = False"
| "unparseable (Response st b) = (response_ok st \<and> b = None)"

text \<open>What is displayed of an item: its id, its text and its classes.\<close>

definition item_view :: "list_item \<Rightarrow> string \<times> string \<times> string list" where
  "item_view it = (taskId it, label it, classList it)"

text \<open>
  The views of the tasks of a backend array, in the array's order, up to the
  first element that cannot be rendered.
\<close>

fun rendered_views :: "json list \<Rightarrow> (string \<times> string \<times> string list) list" where
  "rendered_views [] = []"
| "rendered_views (t # ts) =
     (case new_item 0 (Some t) of
        Inl e \<Rightarrow> []
      | Inr it \<Rightarrow> item_view it # rendered_views ts)"

text \<open>
  The identifier a value carries, as a string; the identifiers a list response
  carries; the identifier of the task a create response carries.
\<close>

definition id_of :: "json option \<Rightarrow> string option" where
  "id_of t =
     (case get_prop t ''id'' of
        Inl e \<Rightarrow> None
      | Inr v \<Rightarrow> (case to_string_u v of Inl e \<Rightarrow> None | Inr i \<Rightarrow> Some i))"

fun listed_ids :: "fetch_result \<Rightarrow> string list" where
  "listed_ids (Response st (Some (JArr ts))) =
     (if response_ok st then List.map_filter (\<lambda>t. id_of (Some t)) ts else [])"
| "listed_ids r = []"

fun created_id :: "fetch_result \<Rightarrow> string option" where
  "created_id (Response st (Some v)) =
     (if response_ok st
      then (case destructure_first v of Inl e \<Rightarrow> None | Inr t \<Rightarrow> id_of t)
      else None)"
| "created_id r = None"

text \<open>
  The backend gives distinct identifiers along a run: the tasks of a list
  response have pairwise distinct identifiers, and the identifier of a created
  task is not one of a task already displayed.
\<close>

fun event_ids_fresh :: "app \<Rightarrow> event \<Rightarrow> bool" where
  "event_ids_fresh s (Settle k r) =
     (if k < length (inflight s)
      then (case snd (inflight s ! k) of
              LoadCont \<Rightarrow> distinct (listed_ids r)
            | AddCont \<Rightarrow>
               (case created_id r of
                  None \<Rightarrow> True
                | Some i \<Rightarrow> i \<notin> set (map taskId (taskList s)))
            | ToggleCont e tid newStatus \<Rightarrow> True)
      else True)"
| "event_ids_fresh s ev = True"

fun ids_distinct :: "app \<Rightarrow> event list \<Rightarrow> bool" where
  "ids_distinct s [] = True"
| "ids_distinct s (ev # evs) = (event_ids_fresh s ev \<and> ids_distinct (step s ev) evs)"

text \<open>The number of update requests in flight for one identifier.\<close>

fun is_toggle_of :: "string \<Rightarrow> request \<times> continuation \<Rightarrow> bool" where
  "is_toggle_of i (rq, ToggleCont e tid newStatus) = (tid = i)"
| "is_toggle_of i (rq, c) = False"

definition toggles_in_flight :: "string \<Rightarrow> app \<Rightarrow> nat" where
  "toggles_in_flight i s = length (filter (is_toggle_of i) (inflight s))"

text \<open>
  A run of user operations, each completed before the next: a Reload, an Add of
  a typed name, a Toggle of an element, each with the result of its request.
\<close>

datatype operation =
    DoReload fetch_result
  | DoAdd string fetch_result
  | DoToggle nat fetch_result

fun perform :: "app \<Rightarrow> operation \<Rightarrow> app" where
  "perform s (DoReload r) = Reload r s"
| "perform s (DoAdd name r) = Add r (step s (Input name))"
| "perform s (DoToggle e r) = Toggle e r s"

definition perform_all :: "app \<Rightarrow> operation list \<Rightarrow> app" where
  "perform_all s ops = foldl perform s ops"

text \<open>
  The same condition relative to the displayed list, for a run of operations
  that are each completed before the next is started.
\<close>

fun op_ids_fresh :: "app \<Rightarrow> operation \<Rightarrow> bool" where
  "op_ids_fresh s (DoReload r) = distinct (listed_ids r)"
| "op_ids_fresh s (DoAdd name r) =
     (case created_id r of
        None \<Rightarrow> True
      | Some i \<Rightarrow> i \<notin> set (map taskId (taskList s)))"
| "op_ids_fresh s (DoToggle e r) = True"

fun backend_ids_distinct :: "app \<Rightarrow> operation list \<Rightarrow> bool" where
  "backend_ids_distinct s [] = True"
| "backend_ids_distinct s (x # xs) =
     (op_ids_fresh s x \<and> backend_ids_distinct (perform s x) xs)"

text \<open>
  The condition stated of the backend's responses alone, for operations that
  are each completed before the next is started: the tasks of each list
  response have pairwise distinct identifiers, and the identifier of each
  created task has not been carried by any earlier response. \<open>returned_ids\<close>
  gives the identifiers that the response of an operation carries, and \<open>seen\<close>
  collects those of the responses so far.
\<close>

fun returned_ids :: "operation \<Rightarrow> string list" where
  "returned_ids (DoReload r) = listed_ids r"
| "returned_ids (DoAdd name r) = (case created_id r of None \<Rightarrow> [] | Some i \<Rightarrow> [i])"
| "returned_ids (DoToggle e r) = []"

fun op_fresh :: "string list \<Rightarrow> operation \<Rightarrow> bool" where
  "op_fresh seen (DoReload r) = distinct (listed_ids r)"
| "op_fresh seen (DoAdd name r) =
     (case created_id r of None \<Rightarrow> True | Some i \<Rightarrow> i \<notin> set seen)"
| "op_fresh seen (DoToggle e r) = True"

fun backend_fresh :: "string list \<Rightarrow> operation list \<Rightarrow> bool" where
  "backend_fresh seen [] = True"
| "backend_fresh seen (x # xs) =
     (op_fresh seen x \<and> backend_fresh (returned_ids x @ seen) xs)"

text \<open>Concrete values for the scenarios.\<close>

definition milk_task :: json where
  "milk_task =
     JObj [(''id'', JStr ''t1''), (''name'', JStr ''Buy milk''),
           (''is_completed'', JBool False)]"

definition milk_page :: app where
  "milk_page = empty_page\<lparr>taskInput := ''Buy milk''\<rparr>"

definition one_task_page :: app where
  "one_task_page =
     \<lparr>taskList =
        [\<lparr>elem = 0,
          classList = [''w3-display-container'', ''task-item'', ''w3-white'',
                       ''w3-border-theme-l1''],
          taskId = ''t1'', label = ''Buy milk''\<rparr>],
      taskInput = [], alerts = [], console = [], next_elem = 1, inflight = []\<rparr>"

section \<open>Basic facts\<close>

lemma settle_last:
  "step (s\<lparr>inflight := inflight s @ [(rq, c)]\<rparr>) (Settle (length (inflight s)) r) =
     resume c r s"
  by simp

lemma Reload_eq: "Reload r s = loadTasks_resume r s"
  by (simp add: Reload_def run_def loadTasks_def)

lemma Add_eq:
  "Add r s =
     (if trim (taskInput s) = []
      then s\<lparr>alerts := alerts s @ [''You must write something!'']\<rparr>
      else addTask_resume r s)"
  by (simp add: Add_def run_def addTask_def)

lemma Toggle_eq:
  "Toggle e r s =
     (case find (\<lambda>it. elem it = e) (taskList s) of
        None \<Rightarrow> s
      | Some it \<Rightarrow> click_resume r e (taskId it) (\<not> is_completed it) s)"
  by (simp add: Toggle_def run_def click_def Let_def split: option.splits)

lemma is_completed_toggle_classes [simp]:
  "is_completed (toggle_classes it) = (\<not> is_completed it)"
  by (auto simp: is_completed_def toggle_classes_def classList_toggle_def)

lemma elem_toggle_classes [simp]: "elem (toggle_classes it) = elem it"
  by (simp add: toggle_classes_def)

lemma taskId_toggle_classes [simp]: "taskId (toggle_classes it) = taskId it"
  by (simp add: toggle_classes_def)

lemma find_toggled:
  "find (\<lambda>it. elem it = e)
     (map (\<lambda>it. if elem it = e then toggle_classes it else it) xs) =
   map_option toggle_classes (find (\<lambda>it. elem it = e) xs)"
  by (induction xs) auto

lemma taskList_completeTask_resume [simp]:
  "taskList (completeTask_resume r tid b s) = taskList s"
  by (cases r) (simp_all add: completeTask_catch_def)

lemma alerts_completeTask_resume_failure:
  "transport_failure r \<Longrightarrow>
     alerts (completeTask_resume r tid b s) =
       alerts s @ [''Failed to update task status via API. Check console for details.'']"
  by (cases r) (simp_all add: completeTask_catch_def)

section \<open>Toggle\<close>

text \<open>
  C1, as the program has it: a Toggle of a displayed task whose update request
  fails (the \<^verbatim>\<open>fetch\<close> rejects or the status is not a success status) raises the
  failure alert and still flips the task's completion: \<^verbatim>\<open>completeTask\<close> catches its
  own error, the click handler toggles the classes whatever the outcome, and
  nothing reverts the flip.
\<close>

theorem toggle_failure_keeps_flip:
  assumes "find (\<lambda>it. elem it = e) (taskList s) = Some it"
    and "transport_failure r"
  shows "map_option is_completed (find (\<lambda>it. elem it = e) (taskList (Toggle e r s))) =
           Some (\<not> is_completed it) \<and>
         alerts (Toggle e r s) =
           alerts s @ [''Failed to update task status via API. Check console for details.'']"
  using assms
  by (simp add: Toggle_eq click_resume_def Let_def find_toggled
      alerts_completeTask_resume_failure)

text \<open>The theorem at the page showing the one task \<^verbatim>\<open>t1\<close>, with a rejected request.\<close>

theorem toggle_failure_keeps_flip_witness:
  "find (\<lambda>it. elem it = 0) (taskList one_task_page) \<noteq> None \<and>
   transport_failure Rejected \<and>
   map is_completed (taskList one_task_page) = [False] \<and>
   map_option is_completed
     (find (\<lambda>it. elem it = 0) (taskList (Toggle 0 Rejected one_task_page))) = Some True"
  using toggle_failure_keeps_flip [of 0 one_task_page "hd (taskList one_task_page)" Rejected]
  by (simp add: one_task_page_def is_completed_def)

text \<open>
  The task \<^verbatim>\<open>t1\<close> is not completed; after a Toggle whose request is rejected it is
  displayed as completed, not with its value before the Toggle.
\<close>

theorem toggle_rollback_counterexample:
  "map is_completed (taskList one_task_page) = [False] \<and>
   transport_failure Rejected \<and>
   map is_completed (taskList (Toggle 0 Rejected one_task_page)) = [True]"
  by (simp add: Toggle_eq one_task_page_def click_resume_def completeTask_catch_def
      toggle_classes_def classList_toggle_def is_completed_def)

section \<open>Add\<close>

lemma renderTask_cases:
  "(\<exists>e. renderTask t s = (s\<lparr>next_elem := Suc (next_elem s)\<rparr>, Some e) \<and>
        new_item (next_elem s) t = Inl e) \<or>
   (\<exists>it. renderTask t s =
           (s\<lparr>next_elem := Suc (next_elem s), taskList := taskList s @ [it]\<rparr>, None) \<and>
         new_item (next_elem s) t = Inr it)"
  by (cases "new_item (next_elem s) t") (simp_all add: renderTask_def Let_def)

lemma addTask_resume_failure:
  assumes "transport_failure r \<or> unparseable r"
  shows "taskList (addTask_resume r s) = taskList s \<and>
         taskInput (addTask_resume r s) = taskInput s \<and>
         alerts (addTask_resume r s) =
           alerts s @ [''Failed to add task via API. Check console for details.'']"
  using assms by (cases r) (auto simp: addTask_catch_def)

lemma addTask_resume_cases:
  "(taskList (addTask_resume r s) = taskList s \<and>
    taskInput (addTask_resume r s) = taskInput s \<and>
    alerts (addTask_resume r s) =
      alerts s @ [''Failed to add task via API. Check console for details.'']) \<or>
   (\<exists>st v t it. r = Response st (Some v) \<and> response_ok st \<and>
      destructure_first v = Inr t \<and> new_item (next_elem s) t = Inr it \<and>
      taskList (addTask_resume r s) = taskList s @ [it] \<and>
      taskInput (addTask_resume r s) = [] \<and>
      alerts (addTask_resume r s) = alerts s)"
proof (cases r)
  case Rejected
  then show ?thesis by (simp add: addTask_catch_def)
next
  case (Response st b)
  show ?thesis
  proof (cases "response_ok st")
    case False
    with Response show ?thesis by (simp add: addTask_catch_def)
  next
    case ok: True
    show ?thesis
    proof (cases b)
      case None
      with Response ok show ?thesis by (simp add: addTask_catch_def)
    next
      case (Some v)
      show ?thesis
      proof (cases "destructure_first v")
        case (Inl e)
        with Response ok Some show ?thesis by (simp add: addTask_catch_def)
      next
        case (Inr t)
        from renderTask_cases [of t s] show ?thesis
        proof (elim disjE exE conjE)
          fix e assume "renderTask t s = (s\<lparr>next_elem := Suc (next_elem s)\<rparr>, Some e)"
          with Response ok Some Inr show ?thesis by (simp add: addTask_catch_def)
        next
          fix it
          assume "renderTask t s =
                    (s\<lparr>next_elem := Suc (next_elem s), taskList := taskList s @ [it]\<rparr>, None)"
            and "new_item (next_elem s) t = Inr it"
          with Response ok Some Inr show ?thesis by simp
        qed
      qed
    qed
  qed
qed

text \<open>
  C2, as the program has it: for every name that is not empty after trimming,
  Add starts the create request with the list as it was, no placeholder being
  inserted; and when the request fails in transport or its body is not JSON,
  and more generally whenever Add raises its failure alert, the list after Add
  is the list before it.
\<close>

theorem failed_add_leaves_list:
  assumes "trim (taskInput s) \<noteq> []"
  shows "taskList (step s PressEnter) = taskList s \<and>
         inflight (step s PressEnter) =
           inflight s @ [(addTask_request (trim (taskInput s)), AddCont)] \<and>
         (transport_failure r \<or> unparseable r \<longrightarrow>
            taskList (Add r s) = taskList s \<and>
            alerts (Add r s) =
              alerts s @ [''Failed to add task via API. Check console for details.'']) \<and>
         (alerts (Add r s) \<noteq> alerts s \<longrightarrow> taskList (Add r s) = taskList s)"
proof -
  have "taskList (step s PressEnter) = taskList s"
    using assms by (simp add: addTask_def)
  moreover have "inflight (step s PressEnter) =
      inflight s @ [(addTask_request (trim (taskInput s)), AddCont)]"
    using assms by (simp add: addTask_def)
  moreover have "transport_failure r \<or> unparseable r \<longrightarrow>
            taskList (Add r s) = taskList s \<and>
            alerts (Add r s) =
              alerts s @ [''Failed to add task via API. Check console for details.'']"
    using assms addTask_resume_failure [of r s] by (simp add: Add_eq)
  moreover have "alerts (Add r s) \<noteq> alerts s \<longrightarrow> taskList (Add r s) = taskList s"
    using assms addTask_resume_cases [of r s] by (auto simp: Add_eq)
  ultimately show ?thesis by blast
qed

text \<open>The theorem at the empty page with \<^verbatim>\<open>Buy milk\<close> typed, the request rejected.\<close>

theorem failed_add_leaves_list_witness:
  "trim (taskInput milk_page) \<noteq> [] \<and>
   transport_failure Rejected \<and>
   taskList (step milk_page PressEnter) = [] \<and>
   taskList (Add Rejected milk_page) = taskList milk_page \<and>
   alerts (Add Rejected milk_page) =
     [''Failed to add task via API. Check console for details.'']"
proof -
  have h: "trim (taskInput milk_page) \<noteq> []"
    by (simp add: milk_page_def empty_page_def trim_def is_whitespace_def)
  show ?thesis
    using h failed_add_leaves_list [OF h, of Rejected]
    by (simp add: milk_page_def empty_page_def)
qed

text \<open>
  With \<^verbatim>\<open>Buy milk\<close> typed on the empty page, the create request is in flight
  and the list is still empty: nothing was inserted before the call.
\<close>

theorem add_placeholder_counterexample:
  "trim (taskInput milk_page) = ''Buy milk'' \<and>
   map (\<lambda>p. req_method (fst p)) (inflight (step milk_page PressEnter)) = [''POST''] \<and>
   taskList (step milk_page PressEnter) = []"
  by (simp add: milk_page_def empty_page_def trim_def is_whitespace_def addTask_def
      addTask_request_def Let_def)

lemma addTask_resume_array:
  assumes "response_ok st" and "new_item (next_elem s) (Some x) = Inr it"
  shows "addTask_resume (Response st (Some (JArr (x # rest)))) s =
           s\<lparr>next_elem := Suc (next_elem s), taskList := taskList s @ [it],
             taskInput := []\<rparr>"
  using assms by (simp add: renderTask_def Let_def)

lemma addTask_resume_object:
  assumes "response_ok st"
  shows "addTask_resume (Response st (Some (JObj kvs))) s = addTask_catch TypeError s"
  using assms by simp

text \<open>
  C3, as the program has it: a successful create response is accepted when its
  body is a JSON array, and the task adopted is the array's element 0, whatever
  follows it; a body that is a single JSON object is refused: Add raises its
  failure alert and renders nothing.
\<close>

theorem create_response_shapes:
  assumes "trim (taskInput s) \<noteq> []" and "response_ok st"
  shows "(new_item (next_elem s) (Some x) = Inr it \<longrightarrow>
            taskList (Add (Response st (Some (JArr (x # rest)))) s) = taskList s @ [it] \<and>
            alerts (Add (Response st (Some (JArr (x # rest)))) s) = alerts s) \<and>
         taskList (Add (Response st (Some (JObj kvs))) s) = taskList s \<and>
         alerts (Add (Response st (Some (JObj kvs))) s) =
           alerts s @ [''Failed to add task via API. Check console for details.'']"
  using assms
  by (simp add: Add_eq addTask_resume_array addTask_resume_object addTask_catch_def
      del: addTask_resume.simps)

text \<open>
  The theorem at the empty page with \<^verbatim>\<open>Buy milk\<close> typed and status 201: the
  singleton array is adopted, the single object is refused.
\<close>

theorem create_response_shapes_witness:
  "trim (taskInput milk_page) \<noteq> [] \<and> response_ok 201 \<and>
   map item_view (taskList (Add (Response 201 (Some (JArr [milk_task]))) milk_page)) =
     [(''t1'', ''Buy milk'',
       [''w3-display-container'', ''task-item'', ''w3-white'', ''w3-border-theme-l1''])] \<and>
   taskList (Add (Response 201 (Some milk_task)) milk_page) = []"
proof -
  have h: "trim (taskInput milk_page) \<noteq> []"
    by (simp add: milk_page_def empty_page_def trim_def is_whitespace_def)
  have ok: "response_ok 201"
    by (simp add: response_ok_def)
  have it: "new_item (next_elem milk_page) (Some milk_task) =
      Inr \<lparr>elem = 0,
           classList = [''w3-display-container'', ''task-item'', ''w3-white'',
                        ''w3-border-theme-l1''],
           taskId = ''t1'', label = ''Buy milk''\<rparr>"
    by (simp add: new_item_def milk_task_def milk_page_def empty_page_def initial_classes_def)
  have tl: "taskList milk_page = []"
    by (simp add: milk_page_def empty_page_def)
  from create_response_shapes [OF h ok, of milk_task _ "[]" "[(''id'', JStr ''t1''),
      (''name'', JStr ''Buy milk''), (''is_completed'', JBool False)]"] it tl h ok
  show ?thesis
    by (simp add: item_view_def milk_task_def)
qed

text \<open>
  A create response with status 201 whose body is the single object for
  \<^verbatim>\<open>t1\<close> is not accepted: the list stays empty and the failure alert is raised.
\<close>

theorem single_object_counterexample:
  "response_ok 201 \<and>
   taskList (Add (Response 201 (Some milk_task)) milk_page) = [] \<and>
   alerts (Add (Response 201 (Some milk_task)) milk_page) =
     [''Failed to add task via API. Check console for details.'']"
  by (simp add: Add_eq milk_page_def empty_page_def trim_def is_whitespace_def
      response_ok_def milk_task_def addTask_catch_def)

text \<open>
  C6: every successful Add appends, after the tasks already in the list, one
  task whose identifier is the identifier of the created task that the create
  response carries (element 0 of its array), with that task's name and
  completion; since nothing else is inserted, no temporary identifier is in
  the list. On the empty page, Add of \<^verbatim>\<open>Buy milk\<close> against a backend that creates
  \<^verbatim>\<open>{id: t1, name: Buy milk, is_completed: false}\<close> leaves exactly that one task.
\<close>

theorem add_adopts_returned_id:
  assumes "trim (taskInput s) \<noteq> []" and "response_ok st"
    and "destructure_first v = Inr newTask"
    and "get_prop newTask ''is_completed'' = Inr c"
    and "get_prop newTask ''id'' = Inr i" and "to_string_u i = Inr tid"
    and "get_prop newTask ''name'' = Inr n" and "to_string_u n = Inr nm"
  shows "taskList (Add (Response st (Some v)) s) =
           taskList s @
             [\<lparr>elem = next_elem s, classList = initial_classes c,
               taskId = tid, label = nm\<rparr>] \<and>
         created_id (Response st (Some v)) = Some tid \<and>
         alerts (Add (Response st (Some v)) s) = alerts s"
  using assms
  by (simp add: Add_eq renderTask_def new_item_def Let_def id_of_def)

text \<open>The theorem at the scenario of the specification.\<close>

theorem add_adopts_returned_id_witness:
  "trim (taskInput milk_page) \<noteq> [] \<and> response_ok 201 \<and>
   taskList milk_page = [] \<and>
   created_id (Response 201 (Some (JArr [milk_task]))) = Some ''t1'' \<and>
   map (\<lambda>it. (taskId it, label it, is_completed it))
     (taskList (Add (Response 201 (Some (JArr [milk_task]))) milk_page)) =
     [(''t1'', ''Buy milk'', False)]"
proof -
  have h: "trim (taskInput milk_page) \<noteq> []"
    by (simp add: milk_page_def empty_page_def trim_def is_whitespace_def)
  have ok: "response_ok 201"
    by (simp add: response_ok_def)
  have d: "destructure_first (JArr [milk_task]) = Inr (Some milk_task)"
    by simp
  have c: "get_prop (Some milk_task) ''is_completed'' = Inr (Some (JBool False))"
    by (simp add: milk_task_def)
  have i: "get_prop (Some milk_task) ''id'' = Inr (Some (JStr ''t1''))"
    by (simp add: milk_task_def)
  have n: "get_prop (Some milk_task) ''name'' = Inr (Some (JStr ''Buy milk''))"
    by (simp add: milk_task_def)
  have ti: "to_string_u (Some (JStr ''t1'')) = Inr ''t1''"
    by simp
  have tn: "to_string_u (Some (JStr ''Buy milk'')) = Inr ''Buy milk''"
    by simp
  have tl: "taskList milk_page = []"
    by (simp add: milk_page_def empty_page_def)
  from add_adopts_returned_id [OF h ok d c i ti n tn] h ok tl
  show ?thesis
    by (simp add: is_completed_def initial_classes_def)
qed

text \<open>
  C5: when the trimmed input is empty, Add only raises the validation alert: no
  request is started and the list is unchanged, whatever a backend would
  answer. The same holds for an explicitly empty name, and in the variant
  without a backend, where the list is unchanged as well.
\<close>

theorem empty_name_fails_fast:
  assumes "trim (taskInput s) = []" and "trim (l_taskInput t) = []"
  shows "step s PressEnter = s\<lparr>alerts := alerts s @ [''You must write something!'']\<rparr> \<and>
         inflight (step s PressEnter) = inflight s \<and>
         taskList (step s PressEnter) = taskList s \<and>
         Add r s = step s PressEnter \<and>
         addTask (Some []) s = s\<lparr>alerts := alerts s @ [''You must write something!'']\<rparr> \<and>
         addTask_local has_close_btn None True t =
           (t\<lparr>l_alerts := l_alerts t @ [''You must write something!'']\<rparr>, None) \<and>
         l_taskList (fst (addTask_local has_close_btn None isNew t)) = l_taskList t"
  using assms by (simp add: Add_eq addTask_def addTask_local_def)

text \<open>The theorem at input fields holding blanks only.\<close>

theorem empty_name_fails_fast_witness:
  "trim (taskInput (one_task_page\<lparr>taskInput := ''   ''\<rparr>)) = [] \<and>
   trim (l_taskInput \<lparr>l_taskList = [], l_taskInput = '' '', l_alerts = [],
                      l_next_elem = 0\<rparr>) = [] \<and>
   inflight (step (one_task_page\<lparr>taskInput := ''   ''\<rparr>) PressEnter) = [] \<and>
   taskList (Add (Response 201 (Some (JArr [milk_task])))
               (one_task_page\<lparr>taskInput := ''   ''\<rparr>)) = taskList one_task_page \<and>
   l_taskList (fst (addTask_local (\<lambda>text. True) None True
       \<lparr>l_taskList = [], l_taskInput = '' '', l_alerts = [], l_next_elem = 0\<rparr>)) = []"
proof -
  have h1: "trim (taskInput (one_task_page\<lparr>taskInput := ''   ''\<rparr>)) = []"
    by (simp add: trim_def is_whitespace_def)
  have h2: "trim (l_taskInput \<lparr>l_taskList = [], l_taskInput = '' '', l_alerts = [],
                      l_next_elem = 0\<rparr>) = []"
    by (simp add: trim_def is_whitespace_def)
  have i: "inflight one_task_page = []"
    by (simp add: one_task_page_def)
  from empty_name_fails_fast [OF h1 h2, of "Response 201 (Some (JArr [milk_task]))"
      "\<lambda>text. True" True] h1 h2 i
  show ?thesis by simp
qed

text \<open>
  C10: Add empties the input field only when the create request succeeded and
  the created task was rendered. When the trimmed name is empty, when the
  request fails in transport and when the body is not JSON, the input field and
  the list are as before; whenever the input field changes, it is now empty,
  the response had a success status and a parsed body, no alert was raised and
  one item was appended. In every case the tasks that were in the list are
  still there, unchanged and in the same places.
\<close>

theorem add_clears_input_only_on_success:
  "(trim (taskInput s) = [] \<or> transport_failure r \<or> unparseable r \<longrightarrow>
      taskInput (Add r s) = taskInput s \<and> taskList (Add r s) = taskList s) \<and>
   (taskInput (Add r s) \<noteq> taskInput s \<longrightarrow>
      taskInput (Add r s) = [] \<and> alerts (Add r s) = alerts s \<and>
      (\<exists>st v. r = Response st (Some v) \<and> response_ok st) \<and>
      (\<exists>it. taskList (Add r s) = taskList s @ [it])) \<and>
   take (length (taskList s)) (taskList (Add r s)) = taskList s"
proof -
  have a: "trim (taskInput s) = [] \<or> transport_failure r \<or> unparseable r \<longrightarrow>
      taskInput (Add r s) = taskInput s \<and> taskList (Add r s) = taskList s"
    using addTask_resume_failure [of r s] by (auto simp: Add_eq)
  have b: "taskInput (Add r s) \<noteq> taskInput s \<longrightarrow>
      taskInput (Add r s) = [] \<and> alerts (Add r s) = alerts s \<and>
      (\<exists>st v. r = Response st (Some v) \<and> response_ok st) \<and>
      (\<exists>it. taskList (Add r s) = taskList s @ [it])"
    using addTask_resume_cases [of r s] by (auto simp: Add_eq)
  have c: "take (length (taskList s)) (taskList (Add r s)) = taskList s"
    using addTask_resume_cases [of r s] by (auto simp: Add_eq)
  from a b c show ?thesis by blast
qed

text \<open>
  The theorem where a task is displayed and \<^verbatim>\<open>Buy milk\<close> is typed: a rejected
  request keeps the input, a created task empties it, and the displayed task
  stays in both cases.
\<close>

theorem add_clears_input_only_on_success_witness:
  "transport_failure Rejected \<and>
   taskInput (Add Rejected (one_task_page\<lparr>taskInput := ''Buy milk''\<rparr>)) = ''Buy milk'' \<and>
   taskList (Add Rejected (one_task_page\<lparr>taskInput := ''Buy milk''\<rparr>)) =
     taskList one_task_page \<and>
   taskInput (Add (Response 201 (Some (JArr [milk_task])))
                (one_task_page\<lparr>taskInput := ''Buy milk''\<rparr>)) = [] \<and>
   take 1 (taskList (Add (Response 201 (Some (JArr [milk_task])))
                (one_task_page\<lparr>taskInput := ''Buy milk''\<rparr>))) = taskList one_task_page"
proof -
  have l: "length (taskList one_task_page) = 1"
    by (simp add: one_task_page_def)
  have ne: "taskInput (Add (Response 201 (Some (JArr [milk_task])))
                (one_task_page\<lparr>taskInput := ''Buy milk''\<rparr>)) = []"
    by (simp add: Add_eq trim_def is_whitespace_def response_ok_def renderTask_def
        new_item_def milk_task_def Let_def)
  from add_clears_input_only_on_success [of "one_task_page\<lparr>taskInput := ''Buy milk''\<rparr>" Rejected]
    add_clears_input_only_on_success [of "one_task_page\<lparr>taskInput := ''Buy milk''\<rparr>"
      "Response 201 (Some (JArr [milk_task]))"] l ne
  show ?thesis by simp
qed

section \<open>Toggles in flight\<close>

text \<open>
  C9, as the program has it: toggles are not serialized. Every click on a
  displayed task (outside a close button) at once starts an update request for
  the task's identifier, whatever is already in flight: the number of update
  requests in flight for that identifier grows by one, the list is unchanged
  and no alert or error is raised for the click.
\<close>

theorem click_always_starts_request:
  assumes "find (\<lambda>it. elem it = e) (taskList s) = Some it"
  shows "inflight (step s (Click e False)) =
           inflight s @
             [(completeTask_request (taskId it) (\<not> is_completed it),
               ToggleCont e (taskId it) (\<not> is_completed it))] \<and>
         toggles_in_flight (taskId it) (step s (Click e False)) =
           Suc (toggles_in_flight (taskId it) s) \<and>
         taskList (step s (Click e False)) = taskList s \<and>
         alerts (step s (Click e False)) = alerts s"
  using assms by (simp add: click_def Let_def toggles_in_flight_def)

text \<open>The theorem at the page showing \<^verbatim>\<open>t1\<close>, for a first and a second click.\<close>

theorem click_always_starts_request_witness:
  "find (\<lambda>it. elem it = 0) (taskList one_task_page) \<noteq> None \<and>
   toggles_in_flight ''t1'' one_task_page = 0 \<and>
   toggles_in_flight ''t1'' (step one_task_page (Click 0 False)) = 1 \<and>
   toggles_in_flight ''t1'' (step (step one_task_page (Click 0 False)) (Click 0 False)) = 2"
proof -
  have f0: "find (\<lambda>it. elem it = 0) (taskList one_task_page) =
              Some (hd (taskList one_task_page))"
    by (simp add: one_task_page_def)
  have t0: "taskId (hd (taskList one_task_page)) = ''t1''"
    by (simp add: one_task_page_def)
  have z: "toggles_in_flight ''t1'' one_task_page = 0"
    by (simp add: one_task_page_def toggles_in_flight_def)
  note c1 = click_always_starts_request [OF f0]
  have f1: "find (\<lambda>it. elem it = 0) (taskList (step one_task_page (Click 0 False))) =
              Some (hd (taskList one_task_page))"
    using c1 f0 by simp
  note c2 = click_always_starts_request [OF f1]
  from c1 c2 f0 t0 z show ?thesis by simp
qed

text \<open>
  Two clicks on the task \<^verbatim>\<open>t1\<close> before any response: two update requests for
  \<^verbatim>\<open>t1\<close> are in flight together, both asking for completion, and no alert has
  been raised.
\<close>

theorem concurrent_toggles_counterexample:
  "toggles_in_flight ''t1'' (run one_task_page [Click 0 False, Click 0 False]) = 2 \<and>
   map (\<lambda>p. (req_method (fst p), req_url (fst p), req_body (fst p)))
     (inflight (run one_task_page [Click 0 False, Click 0 False])) =
     [(''PATCH'', ''http://localhost:3000/tasks?id=eq.t1'',
       Some (JObj [(''is_completed'', JBool True)])),
      (''PATCH'', ''http://localhost:3000/tasks?id=eq.t1'',
       Some (JObj [(''is_completed'', JBool True)]))] \<and>
   alerts (run one_task_page [Click 0 False, Click 0 False]) = []"
  by (simp add: run_def click_def one_task_page_def toggles_in_flight_def Let_def
      completeTask_request_def API_URL_def is_completed_def)

section \<open>Reload\<close>

lemma new_item_elem:
  "new_item k t = map_sum id (\<lambda>it. it\<lparr>elem := k\<rparr>) (new_item 0 t)"
  by (simp add: new_item_def split: sum.splits)

lemma new_item_Inl: "new_item k t = Inl e \<Longrightarrow> new_item 0 t = Inl e"
  by (subst (asm) new_item_elem) (cases "new_item 0 t"; simp)

lemma new_item_view:
  "new_item k t = Inr it \<Longrightarrow> \<exists>it0. new_item 0 t = Inr it0 \<and> item_view it0 = item_view it"
  by (subst (asm) new_item_elem) (cases "new_item 0 t"; auto simp: item_view_def)

lemma forEach_renderTask_Cons_throw:
  "renderTask (Some t) s = (s1, Some e) \<Longrightarrow> forEach_renderTask (t # ts) s = (s1, Some e)"
  by simp

lemma forEach_renderTask_Cons_next:
  "renderTask (Some t) s = (s1, None) \<Longrightarrow>
     forEach_renderTask (t # ts) s = forEach_renderTask ts s1"
  by simp

lemma rendered_views_Cons_throw:
  "new_item 0 (Some t) = Inl e \<Longrightarrow> rendered_views (t # ts) = []"
  by simp

lemma rendered_views_Cons_next:
  "new_item 0 (Some t) = Inr it \<Longrightarrow>
     rendered_views (t # ts) = item_view it # rendered_views ts"
  by simp

lemma forEach_renderTask_views:
  "map item_view (taskList (fst (forEach_renderTask ts s))) =
     map item_view (taskList s) @ rendered_views ts"
proof (induction ts arbitrary: s)
  case Nil
  show ?case by simp
next
  case (Cons t ts)
  from renderTask_cases [of "Some t" s] show ?case
  proof (elim disjE exE conjE)
    fix e
    assume r: "renderTask (Some t) s = (s\<lparr>next_elem := Suc (next_elem s)\<rparr>, Some e)"
      and n: "new_item (next_elem s) (Some t) = Inl e"
    from n have "new_item 0 (Some t) = Inl e" by (rule new_item_Inl)
    then have "rendered_views (t # ts) = []" by (rule rendered_views_Cons_throw)
    then show ?case
      by (simp add: forEach_renderTask_Cons_throw [OF r] del: forEach_renderTask.simps
          rendered_views.simps)
  next
    fix it
    assume r: "renderTask (Some t) s =
        (s\<lparr>next_elem := Suc (next_elem s), taskList := taskList s @ [it]\<rparr>, None)"
      and n: "new_item (next_elem s) (Some t) = Inr it"
    from new_item_view [OF n] obtain it0
      where n0: "new_item 0 (Some t) = Inr it0" and v: "item_view it0 = item_view it"
      by blast
    from n0 have "rendered_views (t # ts) = item_view it0 # rendered_views ts"
      by (rule rendered_views_Cons_next)
    with v show ?case
      by (simp add: forEach_renderTask_Cons_next [OF r] Cons.IH
          del: forEach_renderTask.simps rendered_views.simps)
  qed
qed

lemma loadTasks_resume_failure:
  assumes "transport_failure r \<or> unparseable r"
  shows "taskList (loadTasks_resume r s) = taskList s \<and>
         taskInput (loadTasks_resume r s) = taskInput s \<and>
         alerts (loadTasks_resume r s) =
           alerts s @ [''Failed to load tasks from API. Check console for details.'']"
  using assms by (cases r) (auto simp: loadTasks_catch_def)

lemma taskList_loadTasks_catch [simp]: "taskList (loadTasks_catch e s) = taskList s"
  by (simp add: loadTasks_catch_def)

lemma loadTasks_resume_array_views:
  assumes "response_ok st"
  shows "map item_view (taskList (loadTasks_resume (Response st (Some (JArr ts))) s)) =
           rendered_views ts"
proof -
  obtain s2 eo where f: "forEach_renderTask ts (s\<lparr>taskList := []\<rparr>) = (s2, eo)"
    by (cases "forEach_renderTask ts (s\<lparr>taskList := []\<rparr>)")
  from forEach_renderTask_views [of ts "s\<lparr>taskList := []\<rparr>"] f
  have "map item_view (taskList s2) = rendered_views ts" by simp
  with assms f show ?thesis by (cases eo) simp_all
qed

lemma loadTasks_resume_non_array:
  assumes "response_ok st" and "\<forall>ts. v \<noteq> JArr ts"
  shows "taskList (loadTasks_resume (Response st (Some v)) s) = []"
  using assms by (cases v) simp_all

lemma loadTasks_resume_views_twice:
  "map item_view (taskList (loadTasks_resume r (loadTasks_resume r s))) =
     map item_view (taskList (loadTasks_resume r s))"
proof (cases "transport_failure r \<or> unparseable r")
  case True
  then show ?thesis using loadTasks_resume_failure by simp
next
  case False
  then obtain st v where r: "r = Response st (Some v)" and ok: "response_ok st"
    by (cases r) auto
  show ?thesis
  proof (cases "\<exists>ts. v = JArr ts")
    case True
    then obtain ts where "v = JArr ts" by blast
    with r ok show ?thesis by (simp only: loadTasks_resume_array_views)
  next
    case False
    then have "\<forall>ts. v \<noteq> JArr ts" by blast
    from loadTasks_resume_non_array [OF ok this] r show ?thesis by simp
  qed
qed

text \<open>
  C7: two Reloads in a row that get the same response leave the same ordered
  sequence of tasks (identifier, text and classes) as one of them; and after a
  Reload with a success status and an array body, the tasks are the rendered
  elements of the array, in the array's order.
\<close>

theorem reload_idempotent:
  "map item_view (taskList (Reload r (Reload r s))) =
     map item_view (taskList (Reload r s)) \<and>
   (response_ok st \<longrightarrow>
      map item_view (taskList (Reload (Response st (Some (JArr ts))) s)) =
        rendered_views ts)"
  by (simp add: Reload_eq loadTasks_resume_views_twice loadTasks_resume_array_views
      del: loadTasks_resume.simps)

text \<open>The theorem at a backend listing two tasks, from the page showing \<^verbatim>\<open>t1\<close>.\<close>

theorem reload_idempotent_witness:
  "response_ok 200 \<and>
   map taskId (taskList (Reload (Response 200 (Some (JArr
      [JObj [(''id'', JStr ''b''), (''name'', JStr ''x''), (''is_completed'', JBool True)],
       milk_task]))) one_task_page)) = [''b'', ''t1''] \<and>
   map item_view (taskList (Reload (Response 200 (Some (JArr
      [JObj [(''id'', JStr ''b''), (''name'', JStr ''x''), (''is_completed'', JBool True)],
       milk_task])))
     (Reload (Response 200 (Some (JArr
      [JObj [(''id'', JStr ''b''), (''name'', JStr ''x''), (''is_completed'', JBool True)],
       milk_task]))) one_task_page))) =
     [(''b'', ''x'', [''w3-display-container'', ''task-item'', ''w3-white'',
                      ''completed'', ''w3-border-green'']),
      (''t1'', ''Buy milk'', [''w3-display-container'', ''task-item'', ''w3-white'',
                      ''w3-border-theme-l1''])]"
proof -
  have ok: "response_ok 200" by (simp add: response_ok_def)
  have v: "rendered_views
      [JObj [(''id'', JStr ''b''), (''name'', JStr ''x''), (''is_completed'', JBool True)],
       milk_task] =
     [(''b'', ''x'', [''w3-display-container'', ''task-item'', ''w3-white'',
                      ''completed'', ''w3-border-green'']),
      (''t1'', ''Buy milk'', [''w3-display-container'', ''task-item'', ''w3-white'',
                      ''w3-border-theme-l1''])]"
    by (simp add: new_item_def milk_task_def item_view_def initial_classes_def)
  have m: "map taskId xs = map fst (map item_view xs)" for xs
    by (simp add: item_view_def)
  from reload_idempotent [of "Response 200 (Some (JArr
      [JObj [(''id'', JStr ''b''), (''name'', JStr ''x''), (''is_completed'', JBool True)],
       milk_task]))" one_task_page 200 "[JObj [(''id'', JStr ''b''), (''name'', JStr ''x''),
       (''is_completed'', JBool True)], milk_task]"] ok v
  show ?thesis by (simp add: m del: map_map)
qed

text \<open>
  A Reload whose request fails in transport, or whose body is not JSON, leaves
  the list and the input field as they were.
\<close>

lemma failed_reload_keeps_list:
  assumes "transport_failure r \<or> unparseable r"
  shows "taskList (Reload r s) = taskList s \<and> taskInput (Reload r s) = taskInput s"
  using assms loadTasks_resume_failure [of r s] by (simp add: Reload_eq)

text \<open>
  C4 says that a Reload that fails leaves the list as it was. The program does
  not do so when the response has a success status and a body that is JSON but
  not an array of tasks: \<^verbatim>\<open>loadTasks\<close> empties the list before \<^verbatim>\<open>tasks.forEach\<close>
  throws. With the body \<^verbatim>\<open>{}\<close> the Reload ends in its failure alert and the
  displayed task \<^verbatim>\<open>t1\<close> is gone; with an array holding a task \<^verbatim>\<open>b\<close> and \<^verbatim>\<open>null\<close>
  it ends in its failure alert with \<^verbatim>\<open>b\<close> displayed in place of \<^verbatim>\<open>t1\<close>.
\<close>

theorem reload_non_array_clears_list:
  "map taskId (taskList one_task_page) = [''t1''] \<and>
   response_ok 200 \<and>
   taskList (Reload (Response 200 (Some (JObj []))) one_task_page) = [] \<and>
   alerts (Reload (Response 200 (Some (JObj []))) one_task_page) =
     [''Failed to load tasks from API. Check console for details.''] \<and>
   map taskId (taskList (Reload (Response 200 (Some (JArr
     [JObj [(''id'', JStr ''b''), (''name'', JStr ''x''), (''is_completed'', JBool True)],
      JNull]))) one_task_page)) = [''b''] \<and>
   alerts (Reload (Response 200 (Some (JArr
     [JObj [(''id'', JStr ''b''), (''name'', JStr ''x''), (''is_completed'', JBool True)],
      JNull]))) one_task_page) =
     [''Failed to load tasks from API. Check console for details.'']"
  by (simp add: Reload_eq one_task_page_def response_ok_def loadTasks_catch_def
     renderTask_def new_item_def Let_def)

section \<open>One task per identifier\<close>

lemma new_item_id: "new_item k t = Inr it \<Longrightarrow> id_of t = Some (taskId it)"
  by (auto simp: new_item_def id_of_def split: sum.splits)

lemma forEach_renderTask_distinct:
  "distinct (map taskId (taskList s) @ List.map_filter (\<lambda>t. id_of (Some t)) ts) \<Longrightarrow>
     distinct (map taskId (taskList (fst (forEach_renderTask ts s))))"
proof (induction ts arbitrary: s)
  case Nil
  then show ?case by simp
next
  case (Cons t ts)
  from renderTask_cases [of "Some t" s] show ?case
  proof (elim disjE exE conjE)
    fix e
    assume r: "renderTask (Some t) s = (s\<lparr>next_elem := Suc (next_elem s)\<rparr>, Some e)"
    from Cons.prems have "distinct (map taskId (taskList s))" by simp
    then show ?case
      by (simp add: forEach_renderTask_Cons_throw [OF r] del: forEach_renderTask.simps)
  next
    fix it
    assume r: "renderTask (Some t) s =
        (s\<lparr>next_elem := Suc (next_elem s), taskList := taskList s @ [it]\<rparr>, None)"
      and n: "new_item (next_elem s) (Some t) = Inr it"
    let ?s1 = "s\<lparr>next_elem := Suc (next_elem s), taskList := taskList s @ [it]\<rparr>"
    from new_item_id [OF n] Cons.prems
    have "distinct (map taskId (taskList ?s1) @ List.map_filter (\<lambda>t. id_of (Some t)) ts)"
      by (simp add: map_filter_simps)
    then have "distinct (map taskId (taskList (fst (forEach_renderTask ts ?s1))))"
      by (rule Cons.IH)
    then show ?case
      by (simp add: forEach_renderTask_Cons_next [OF r] del: forEach_renderTask.simps)
  qed
qed

lemma loadTasks_resume_distinct:
  assumes "distinct (map taskId (taskList s))" and "distinct (listed_ids r)"
  shows "distinct (map taskId (taskList (loadTasks_resume r s)))"
proof (cases "transport_failure r \<or> unparseable r")
  case True
  with assms(1) loadTasks_resume_failure [of r s] show ?thesis by simp
next
  case False
  then obtain st v where r: "r = Response st (Some v)" and ok: "response_ok st"
    by (cases r) auto
  show ?thesis
  proof (cases "\<exists>ts. v = JArr ts")
    case True
    then obtain ts where v: "v = JArr ts" by blast
    obtain s2 eo where f: "forEach_renderTask ts (s\<lparr>taskList := []\<rparr>) = (s2, eo)"
      by (cases "forEach_renderTask ts (s\<lparr>taskList := []\<rparr>)")
    from assms(2) r ok v
    have "distinct (map taskId (taskList (s\<lparr>taskList := []\<rparr>)) @
            List.map_filter (\<lambda>t. id_of (Some t)) ts)"
      by simp
    from forEach_renderTask_distinct [OF this] f
    have "distinct (map taskId (taskList s2))" by simp
    with r ok v f show ?thesis by (cases eo) simp_all
  next
    case False
    then have "\<forall>ts. v \<noteq> JArr ts" by blast
    from loadTasks_resume_non_array [OF ok this] r show ?thesis by simp
  qed
qed

lemma addTask_resume_distinct:
  assumes "distinct (map taskId (taskList s))"
    and "case created_id r of None \<Rightarrow> True | Some i \<Rightarrow> i \<notin> set (map taskId (taskList s))"
  shows "distinct (map taskId (taskList (addTask_resume r s)))"
  using addTask_resume_cases [of r s]
proof (elim disjE exE conjE)
  assume "taskList (addTask_resume r s) = taskList s"
  with assms(1) show ?thesis by simp
next
  fix st v t it
  assume r: "r = Response st (Some v)" and ok: "response_ok st"
    and d: "destructure_first v = Inr t" and n: "new_item (next_elem s) t = Inr it"
    and l: "taskList (addTask_resume r s) = taskList s @ [it]"
  from r ok d new_item_id [OF n] have "created_id r = Some (taskId it)" by simp
  with assms(2) have "taskId it \<notin> set (map taskId (taskList s))" by simp
  with assms(1) l show ?thesis by simp
qed

lemma click_resume_ids [simp]:
  "map taskId (taskList (click_resume r e tid b s)) = map taskId (taskList s)"
  by (simp add: click_resume_def Let_def comp_def if_distrib [of taskId] cong: if_cong)

lemma perform_distinct:
  assumes "distinct (map taskId (taskList s))" and "op_ids_fresh s x"
  shows "distinct (map taskId (taskList (perform s x)))"
proof (cases x)
  case (DoReload r)
  with assms show ?thesis by (simp add: Reload_eq loadTasks_resume_distinct)
next
  case (DoAdd name r)
  let ?s = "s\<lparr>taskInput := name\<rparr>"
  from assms(1) have a: "distinct (map taskId (taskList ?s))" by simp
  from assms(2) DoAdd
  have b: "case created_id r of None \<Rightarrow> True
           | Some i \<Rightarrow> i \<notin> set (map taskId (taskList ?s))"
    by (simp split: option.splits)
  from addTask_resume_distinct [OF a b] a DoAdd show ?thesis by (simp add: Add_eq)
next
  case (DoToggle e r)
  with assms show ?thesis by (simp add: Toggle_eq split: option.splits)
qed

lemma perform_all_distinct:
  "distinct (map taskId (taskList s)) \<Longrightarrow> backend_ids_distinct s ops \<Longrightarrow>
     distinct (map taskId (taskList (perform_all s ops)))"
proof (induction ops arbitrary: s)
  case Nil
  then show ?case by (simp add: perform_all_def)
next
  case (Cons x xs)
  from Cons.prems have "distinct (map taskId (taskList (perform s x)))"
    by (simp add: perform_distinct)
  moreover from Cons.prems have "backend_ids_distinct (perform s x) xs" by simp
  ultimately have "distinct (map taskId (taskList (perform_all (perform s x) xs)))"
    by (rule Cons.IH)
  then show ?case by (simp add: perform_all_def)
qed

text \<open>
  For every run of events, where requests may overlap, the identifiers of the
  list stay distinct as long as each response that settles carries identifiers
  that are distinct and, for a created task, not displayed at that moment.
\<close>

lemma step_distinct:
  assumes "distinct (map taskId (taskList s))" and "event_ids_fresh s ev"
  shows "distinct (map taskId (taskList (step s ev)))"
proof (cases ev)
  case WindowLoad
  with assms(1) show ?thesis by (simp add: loadTasks_def)
next
  case (Input v)
  with assms(1) show ?thesis by simp
next
  case PressEnter
  with assms(1) show ?thesis by (simp add: addTask_def Let_def)
next
  case (Click e c)
  with assms(1) show ?thesis by (simp add: click_def Let_def split: option.splits)
next
  case (Settle k r)
  show ?thesis
  proof (cases "k < length (inflight s)")
    case False
    with Settle assms(1) show ?thesis by simp
  next
    case True
    let ?s = "s\<lparr>inflight := take k (inflight s) @ drop (Suc k) (inflight s)\<rparr>"
    have d: "distinct (map taskId (taskList ?s))" using assms(1) by simp
    show ?thesis
    proof (cases "snd (inflight s ! k)")
      case LoadCont
      with assms(2) Settle True have "distinct (listed_ids r)" by simp
      from loadTasks_resume_distinct [OF d this] Settle True LoadCont
      show ?thesis by simp
    next
      case AddCont
      with assms(2) Settle True
      have "case created_id r of None \<Rightarrow> True
            | Some i \<Rightarrow> i \<notin> set (map taskId (taskList ?s))"
        by (simp split: option.splits)
      from addTask_resume_distinct [OF d this] Settle True AddCont
      show ?thesis by simp
    next
      case (ToggleCont e tid b)
      with Settle True d show ?thesis by simp
    qed
  qed
qed

lemma run_distinct:
  "distinct (map taskId (taskList s)) \<Longrightarrow> ids_distinct s evs \<Longrightarrow>
     distinct (map taskId (taskList (run s evs)))"
proof (induction evs arbitrary: s)
  case Nil
  then show ?case by (simp add: run_def)
next
  case (Cons ev evs)
  from Cons.prems have "distinct (map taskId (taskList (step s ev)))"
    by (simp add: step_distinct)
  moreover from Cons.prems have "ids_distinct (step s ev) evs" by simp
  ultimately have "distinct (map taskId (taskList (run (step s ev) evs)))"
    by (rule Cons.IH)
  then show ?case by (simp add: run_def)
qed

lemma forEach_renderTask_ids_subset:
  "set (map taskId (taskList (fst (forEach_renderTask ts s)))) \<subseteq>
     set (map taskId (taskList s)) \<union> set (List.map_filter (\<lambda>t. id_of (Some t)) ts)"
proof (induction ts arbitrary: s)
  case Nil
  show ?case by simp
next
  case (Cons t ts)
  from renderTask_cases [of "Some t" s] show ?case
  proof (elim disjE exE conjE)
    fix e
    assume r: "renderTask (Some t) s = (s\<lparr>next_elem := Suc (next_elem s)\<rparr>, Some e)"
    show ?case
      by (simp add: forEach_renderTask_Cons_throw [OF r] del: forEach_renderTask.simps)
  next
    fix it
    assume r: "renderTask (Some t) s =
        (s\<lparr>next_elem := Suc (next_elem s), taskList := taskList s @ [it]\<rparr>, None)"
      and n: "new_item (next_elem s) (Some t) = Inr it"
    let ?s1 = "s\<lparr>next_elem := Suc (next_elem s), taskList := taskList s @ [it]\<rparr>"
    have "set (map taskId (taskList (fst (forEach_renderTask ts ?s1)))) \<subseteq>
            set (map taskId (taskList ?s1)) \<union>
            set (List.map_filter (\<lambda>t. id_of (Some t)) ts)"
      by (rule Cons.IH)
    with new_item_id [OF n] show ?case
      by (auto simp: forEach_renderTask_Cons_next [OF r] map_filter_simps
          simp del: forEach_renderTask.simps)
  qed
qed

lemma loadTasks_resume_ids_subset:
  "set (map taskId (taskList (loadTasks_resume r s))) \<subseteq>
     set (listed_ids r) \<union> set (map taskId (taskList s))"
proof (cases "transport_failure r \<or> unparseable r")
  case True
  with loadTasks_resume_failure [of r s] show ?thesis by auto
next
  case False
  then obtain st v where r: "r = Response st (Some v)" and ok: "response_ok st"
    by (cases r) auto
  show ?thesis
  proof (cases "\<exists>ts. v = JArr ts")
    case True
    then obtain ts where v: "v = JArr ts" by blast
    obtain s2 eo where f: "forEach_renderTask ts (s\<lparr>taskList := []\<rparr>) = (s2, eo)"
      by (cases "forEach_renderTask ts (s\<lparr>taskList := []\<rparr>)")
    from forEach_renderTask_ids_subset [of ts "s\<lparr>taskList := []\<rparr>"] f
    have "set (map taskId (taskList s2)) \<subseteq>
            set (List.map_filter (\<lambda>t. id_of (Some t)) ts)"
      by simp
    with r ok v f show ?thesis by (cases eo) auto
  next
    case False
    then have "\<forall>ts. v \<noteq> JArr ts" by blast
    from loadTasks_resume_non_array [OF ok this] r show ?thesis by simp
  qed
qed

lemma addTask_resume_ids_subset:
  "set (map taskId (taskList (addTask_resume r s))) \<subseteq>
     set (case created_id r of None \<Rightarrow> [] | Some i \<Rightarrow> [i]) \<union> set (map taskId (taskList s))"
  using addTask_resume_cases [of r s]
proof (elim disjE exE conjE)
  assume "taskList (addTask_resume r s) = taskList s"
  then show ?thesis by auto
next
  fix st v t it
  assume r: "r = Response st (Some v)" and ok: "response_ok st"
    and d: "destructure_first v = Inr t" and n: "new_item (next_elem s) t = Inr it"
    and l: "taskList (addTask_resume r s) = taskList s @ [it]"
  from r ok d new_item_id [OF n] have "created_id r = Some (taskId it)" by simp
  with l show ?thesis by auto
qed

lemma perform_ids_subset:
  "set (map taskId (taskList (perform s x))) \<subseteq>
     set (returned_ids x) \<union> set (map taskId (taskList s))"
proof (cases x)
  case (DoReload r)
  with loadTasks_resume_ids_subset [of r s] show ?thesis by (simp add: Reload_eq)
next
  case (DoAdd name r)
  with addTask_resume_ids_subset [of r "s\<lparr>taskInput := name\<rparr>"]
  show ?thesis by (auto simp: Add_eq)
next
  case (DoToggle e r)
  then have "map taskId (taskList (perform s x)) = map taskId (taskList s)"
    by (simp add: Toggle_eq split: option.splits)
  then have "set (map taskId (taskList (perform s x))) = set (map taskId (taskList s))"
    by (rule arg_cong)
  then show ?thesis by blast
qed

lemma op_fresh_displayed:
  assumes "set (map taskId (taskList s)) \<subseteq> set seen" and "op_fresh seen x"
  shows "op_ids_fresh s x"
  using assms by (cases x) (auto split: option.splits)

lemma backend_fresh_displayed:
  "set (map taskId (taskList s)) \<subseteq> set seen \<Longrightarrow> backend_fresh seen ops \<Longrightarrow>
     backend_ids_distinct s ops"
proof (induction ops arbitrary: s seen)
  case Nil
  show ?case by simp
next
  case (Cons x xs)
  from Cons.prems have f: "op_ids_fresh s x"
    by (simp add: op_fresh_displayed)
  from perform_ids_subset [of s x] Cons.prems(1)
  have "set (map taskId (taskList (perform s x))) \<subseteq> set (returned_ids x @ seen)"
    by auto
  moreover from Cons.prems(2) have "backend_fresh (returned_ids x @ seen) xs" by simp
  ultimately have "backend_ids_distinct (perform s x) xs" by (rule Cons.IH)
  with f show ?case by simp
qed

text \<open>
  C8, as the program has it: starting with an empty list, after every sequence
  of Reload, Add and Toggle operations that are each completed before the next
  is started, no two tasks of the list have the same identifier, when the
  backend gives distinct identifiers: the tasks of each list response have
  pairwise distinct identifiers, and the identifier of each created task has
  not been carried by an earlier response. Operations that overlap are left
  out: the list is appended to without a look at the identifiers it holds.
\<close>

theorem sequential_one_task_per_identifier:
  assumes "taskList s = []" and "backend_fresh [] ops"
  shows "distinct (map taskId (taskList (perform_all s ops)))"
proof -
  from assms(1) have "set (map taskId (taskList s)) \<subseteq> set []" by simp
  from backend_fresh_displayed [OF this assms(2)]
  have "backend_ids_distinct s ops" .
  with assms(1) show ?thesis by (simp add: perform_all_distinct)
qed

text \<open>
  The theorem at a run of five operations: a Reload listing \<^verbatim>\<open>t1\<close>, an Add that
  creates \<^verbatim>\<open>b\<close>, a Toggle of \<^verbatim>\<open>t1\<close> whose request is rejected, a rejected Reload,
  and a Reload listing \<^verbatim>\<open>b\<close> and \<^verbatim>\<open>t1\<close>.
\<close>

theorem sequential_one_task_per_identifier_witness:
  "taskList empty_page = [] \<and>
   backend_fresh []
     [DoReload (Response 200 (Some (JArr [milk_task]))),
      DoAdd ''x'' (Response 201 (Some (JArr
        [JObj [(''id'', JStr ''b''), (''name'', JStr ''x''), (''is_completed'', JBool False)]]))),
      DoToggle 0 Rejected,
      DoReload Rejected,
      DoReload (Response 200 (Some (JArr
        [JObj [(''id'', JStr ''b''), (''name'', JStr ''x''), (''is_completed'', JBool False)],
         milk_task])))] \<and>
   distinct (map taskId (taskList (perform_all empty_page
     [DoReload (Response 200 (Some (JArr [milk_task]))),
      DoAdd ''x'' (Response 201 (Some (JArr
        [JObj [(''id'', JStr ''b''), (''name'', JStr ''x''), (''is_completed'', JBool False)]]))),
      DoToggle 0 Rejected,
      DoReload Rejected,
      DoReload (Response 200 (Some (JArr
        [JObj [(''id'', JStr ''b''), (''name'', JStr ''x''), (''is_completed'', JBool False)],
         milk_task])))])))"
proof -
  have e: "taskList empty_page = []"
    by (simp add: empty_page_def)
  have b: "backend_fresh []
     [DoReload (Response 200 (Some (JArr [milk_task]))),
      DoAdd ''x'' (Response 201 (Some (JArr
        [JObj [(''id'', JStr ''b''), (''name'', JStr ''x''), (''is_completed'', JBool False)]]))),
      DoToggle 0 Rejected,
      DoReload Rejected,
      DoReload (Response 200 (Some (JArr
        [JObj [(''id'', JStr ''b''), (''name'', JStr ''x''), (''is_completed'', JBool False)],
         milk_task])))]"
    by (simp add: response_ok_def milk_task_def id_of_def)
  from sequential_one_task_per_identifier [OF e b] e b show ?thesis by simp
qed

text \<open>
  From the empty page, a load is started, \<^verbatim>\<open>Buy milk\<close> is typed and an Add is
  started while the load is in flight. The backend creates \<^verbatim>\<open>t1\<close> and lists it:
  the list response holds the one task \<^verbatim>\<open>t1\<close>, the create response holds the same
  task, and no two tasks of the backend share an identifier. The load settles
  first, then the Add, and \<^verbatim>\<open>t1\<close> is in the list twice.
\<close>

theorem overlapping_add_counterexample:
  "taskList empty_page = [] \<and>
   listed_ids (Response 200 (Some (JArr [milk_task]))) = [''t1''] \<and>
   created_id (Response 201 (Some (JArr [milk_task]))) = Some ''t1'' \<and>
   map taskId (taskList (run empty_page
     [WindowLoad, Input ''Buy milk'', PressEnter,
      Settle 0 (Response 200 (Some (JArr [milk_task]))),
      Settle 0 (Response 201 (Some (JArr [milk_task])))])) = [''t1'', ''t1''] \<and>
   \<not> distinct (map taskId (taskList (run empty_page
     [WindowLoad, Input ''Buy milk'', PressEnter,
      Settle 0 (Response 200 (Some (JArr [milk_task]))),
      Settle 0 (Response 201 (Some (JArr [milk_task])))])))"
  by (simp add: run_def empty_page_def addTask_def loadTasks_def trim_def
      is_whitespace_def response_ok_def renderTask_def new_item_def milk_task_def Let_def
      id_of_def)

end
